theory Spec2Isabelle
  imports Complex_Main
begin

section \<open>JavaScript values, as far as the constructor's checks look at them\<close>

text \<open>
  A JavaScript number is NaN, plus or minus Infinity, or a finite value (the finite doubles
  are read as reals, so \<open>-0\<close> and \<open>0\<close> are the same value, as they are for \<open>!==\<close>
  and for truthiness).
\<close>

datatype js_number = NaN | Infinity bool | Finite real

text \<open>
  The values an options field can hold at run time. \<open>JObject\<close> stands for any
  object, array or function: all that the checks read of it is that it is truthy and
  that its \<open>typeof\<close> is neither \<open>"number"\<close> nor \<open>"string"\<close>. A missing field
  reads as \<open>JUndefined\<close>.
\<close>

datatype js_value =
    JUndefined
  | JNull
  | JBoolean bool
  | JNumber js_number
  | JString string
  | JObject

fun truthy :: "js_value \<Rightarrow> bool" where
  "truthy JUndefined = False"
| "truthy JNull = False"
| "truthy (JBoolean b) = b"
| "truthy (JNumber NaN) = False"
| "truthy (JNumber (Infinity neg)) = True"
| "truthy (JNumber (Finite r)) = (r \<noteq> 0)"
| "truthy (JString s) = (s \<noteq> [])"
| "truthy JObject = True"

fun typeof :: "js_value \<Rightarrow> string" where
  "typeof JUndefined = ''undefined''"
| "typeof JNull = ''object''"
| "typeof (JBoolean b) = ''boolean''"
| "typeof (JNumber n) = ''number''"
| "typeof (JString s) = ''string''"
| "typeof JObject = ''object''"

text \<open>\<open>v !== 0\<close>: strict inequality with the number zero.\<close>

definition strict_neq_zero :: "js_value \<Rightarrow> bool" where
  "strict_neq_zero v = (v \<noteq> JNumber (Finite 0))"

section \<open>String operations of the source\<close>

text \<open>
  Strings are lists of characters. The operations below compare characters for equality
  and nothing else, so they do on these lists what JavaScript's do on its strings.
\<close>

fun starts_with :: "string \<Rightarrow> string \<Rightarrow> bool" where
  "starts_with s [] = True"
| "starts_with [] (p # ps) = False"
| "starts_with (c # cs) (p # ps) = (c = p \<and> starts_with cs ps)"

text \<open>\<open>s.includes(p)\<close>, which is also \<open>s.indexOf(p) > -1\<close>.\<close>

fun str_includes :: "string \<Rightarrow> string \<Rightarrow> bool" where
  "str_includes [] p = (p = [])"
| "str_includes (c # cs) p = (starts_with (c # cs) p \<or> str_includes cs p)"

text \<open>\<open>s.split(d)\<close> for a one-character separator: never the empty list.\<close>

fun split_on :: "char \<Rightarrow> string \<Rightarrow> string list" where
  "split_on d [] = [[]]"
| "split_on d (c # cs) =
     (if c = d then [] # split_on d cs
      else (case split_on d cs of
              [] \<Rightarrow> [[c]]
            | w # ws \<Rightarrow> (c # w) # ws))"

text \<open>\<open>ws.join(d)\<close>.\<close>

fun join :: "string \<Rightarrow> string list \<Rightarrow> string" where
  "join d [] = []"
| "join d [w] = w"
| "join d (w # v # ws) = w @ d @ join d (v # ws)"

text \<open>
  The replacement text of \<open>String.prototype.replace\<close> with a string pattern: in the
  replacement, \<open>$$\<close> is a dollar sign, \<open>$&\<close> the matched text, \<open>$`\<close> the text before the
  match and \<open>$'\<close> the text after it; a string pattern has no capture groups, so every
  other \<open>$\<close> stands for itself.
\<close>

fun get_substitution :: "string \<Rightarrow> string \<Rightarrow> string \<Rightarrow> string \<Rightarrow> string" where
  "get_substitution matched preceding following [] = []"
| "get_substitution matched preceding following [c] = [c]"
| "get_substitution matched preceding following (c # d # r) =
     (if c = CHR ''$'' then
        (if d = CHR ''$'' then CHR ''$'' # get_substitution matched preceding following r
         else if d = CHR ''&'' then matched @ get_substitution matched preceding following r
         else if d = CHR 0x60 then preceding @ get_substitution matched preceding following r
         else if d = CHR 0x27 then following @ get_substitution matched preceding following r
         else c # get_substitution matched preceding following (d # r))
      else c # get_substitution matched preceding following (d # r))"

text \<open>
  \<open>s.replace(pat, repl)\<close> with a string pattern: only the first occurrence is
  replaced; \<open>pre\<close> is the text already passed.
\<close>

fun replace_at :: "string \<Rightarrow> string \<Rightarrow> string \<Rightarrow> string \<Rightarrow> string" where
  "replace_at pre [] pat repl =
     (if pat = [] then pre @ get_substitution [] pre [] repl else pre)"
| "replace_at pre (c # cs) pat repl =
     (if starts_with (c # cs) pat
      then pre @ get_substitution pat pre (drop (length pat) (c # cs)) repl
               @ drop (length pat) (c # cs)
      else replace_at (pre @ [c]) cs pat repl)"

definition str_replace :: "string \<Rightarrow> string \<Rightarrow> string \<Rightarrow> string" where
  "str_replace s pat repl = replace_at [] s pat repl"

section \<open>The constructor\<close>

text \<open>
  The options object as a caller can pass it: the four required fields hold any value,
  the optional folder name is a string or is left out.
\<close>

record CompilerOptions =
  langNum :: js_value
  mainFile :: js_value
  pathToFiles :: js_value
  containerName :: js_value
  folderName :: "string option"

text \<open>The fields of a constructed instance: \<open>this.opts\<close> and \<open>this.folderName\<close>.\<close>

record Compiler =
  opts :: CompilerOptions
  this_folderName :: string

text \<open>
  \<open>opts.folderName || "code"\<close>: the folder name when it is a non-empty string,
  \<open>"code"\<close> otherwise.
\<close>

definition folder_or_code :: "string option \<Rightarrow> string" where
  "folder_or_code f = (case f of None \<Rightarrow> ''code'' | Some n \<Rightarrow> (if n = [] then ''code'' else n))"

text \<open>The constructor throws a string (\<open>Inl\<close>) or returns the instance.\<close>

definition constructor :: "CompilerOptions \<Rightarrow> string + Compiler" where
  "constructor os =
     (if (\<not> truthy (langNum os) \<and> strict_neq_zero (langNum os)) \<or> typeof (langNum os) \<noteq> ''number''
      then Inl ''Required param 'langNum' missing or invalid.''
      else if \<not> truthy (mainFile os) \<or> typeof (mainFile os) \<noteq> ''string''
      then Inl ''Required param 'mainFile' missing or invalid.''
      else if \<not> truthy (pathToFiles os) \<or> typeof (pathToFiles os) \<noteq> ''string''
      then Inl ''Required param 'pathToFiles' missing or invalid.''
      else if \<not> truthy (containerName os) \<or> typeof (containerName os) \<noteq> ''string''
      then Inl ''Required param 'containerName' missing or invalid.''
      else Inr \<lparr> opts = os, this_folderName = folder_or_code (folderName os) \<rparr>)"

section \<open>What a session does to the outside, and what reaches it\<close>

datatype event =
    Inc string
  | Launched
  | Done string bool

text \<open>
  The effects of the code, in the order it performs them: a shell command given to
  \<open>child_process.exec\<close>, the pty spawned by node-pty (file, arguments, terminal name,
  columns, rows), a write to the pty, a signal to it, a resize of it, an event emitted to
  the listeners, and \<open>clearInterval\<close> on the polling timer.
\<close>

datatype effect =
    Shell string
  | Spawn string "string list" string nat nat
  | Write string
  | Kill string
  | ResizePty int int
  | Emit event
  | ClearInterval

text \<open>The callbacks that \<open>setTimeout\<close> holds until they fire.\<close>

datatype timer = SendStep1 | SendStep2 | RemoveContainer

text \<open>
  The variables of one call of \<open>exec\<close>, shared by its callbacks: the three strings
  fixed at the start, the five flags, the pending \<open>setTimeout\<close> callbacks in the order
  they were scheduled, whether the polling interval is still armed, and the number of
  \<open>docker ps\<close> probes whose callback has not run yet.
\<close>

record session =
  container :: string
  step1 :: string
  step2 :: string
  sentStep1 :: bool
  sentStep2 :: bool
  receivedFinalArrow :: bool
  isLaunched :: bool
  sentDone :: bool
  timeouts :: "timer list"
  checkInterval :: bool
  probes :: nat

text \<open>What happens to a session: every callback of the source, and the public methods.\<close>

datatype input =
    Data string
  | TimeoutFires nat
  | IntervalFires
  | ProbeReturns string
  | Push string
  | Stop
  | Resize int int

datatype error = TypeError

section \<open>exec\<close>

text \<open>The prompt marker \<open>"\u001b[1;3;31m>> \u001b[0m"\<close>.\<close>

definition arrow :: string where
  "arrow = CHR 0x1B # ''[1;3;31m>> '' @ CHR 0x1B # ''[0m''"

text \<open>\<open>String.fromCharCode(127)\<close>.\<close>

definition del :: string where
  "del = [CHR 0x7F]"

text \<open>
  A validated string field of the options. The constructor lets only strings through for
  the three fields this is applied to; any other value reads as the empty string here and
  never reaches \<open>exec\<close> through a constructed instance.
\<close>

fun the_string :: "js_value \<Rightarrow> string" where
  "the_string (JString s) = s"
| "the_string v = []"

text \<open>
  \<open>compilers[langNum]\<close> on the catalog, an array of arrays of command templates
  (\<open>langList.json\<close>, a parameter here): the entry when the number is an index of the
  array, \<open>undefined\<close> (\<open>None\<close>) otherwise.
\<close>

definition catalog_entry :: "string list list \<Rightarrow> js_value \<Rightarrow> string list option" where
  "catalog_entry compilers v =
     (case v of
        JNumber (Finite r) \<Rightarrow>
          (if 0 \<le> r \<and> r = of_int \<lfloor>r\<rfloor> \<and> nat \<lfloor>r\<rfloor> < length compilers
           then Some (compilers ! nat \<lfloor>r\<rfloor>) else None)
      | _ \<Rightarrow> None)"

text \<open>\<open>runner[i]\<close>: \<open>undefined\<close> past the end of the array.\<close>

definition element :: "string list \<Rightarrow> nat \<Rightarrow> string option" where
  "element runner i = (if i < length runner then Some (runner ! i) else None)"

text \<open>A template literal's \<open>${x}\<close> for a string that may be \<open>undefined\<close>.\<close>

definition interpolate :: "string option \<Rightarrow> string" where
  "interpolate x = (case x of None \<Rightarrow> ''undefined'' | Some s \<Rightarrow> s)"

text \<open>Lines 59-60: the main file's name without its last extension.\<close>

definition fileWithoutExt :: "string \<Rightarrow> string" where
  "fileWithoutExt m = join ''.'' (butlast (split_on CHR ''.'' m))"

text \<open>The argument list of \<open>docker run\<close>, lines 52-53.\<close>

definition docker_args :: "Compiler \<Rightarrow> string list" where
  "docker_args this =
     [''run'', ''--rm'', ''--name'', the_string (containerName (opts this)),
      ''-e'', ''TERM=xterm-256color'', ''--cpus=0.25'', ''--memory=200m'',
      ''-itv'',
      the_string (pathToFiles (opts this)) @ '':/usercode/'' @ interpolate (folderName (opts this)),
      ''--workdir'', ''/usercode/'' @ interpolate (folderName (opts this)),
      ''cc-compiler'', ''/bin/bash'']"

definition step1_of :: "string list \<Rightarrow> string \<Rightarrow> string" where
  "step1_of runner m = interpolate (element runner 0) @ '' '' @ m @ [CHR 0x0D]"

definition step2_of :: "string list \<Rightarrow> string \<Rightarrow> string" where
  "step2_of runner m =
     (case element runner 1 of
        None \<Rightarrow> []
      | Some t \<Rightarrow> (if t = [] then [] else str_replace t ''{}'' (fileWithoutExt m) @ [CHR 0x0D]))"

text \<open>
  \<open>exec\<close>: the permission fix-up and the spawn come first; reading \<open>runner[0]\<close> of
  an \<open>undefined\<close> runner then throws, before any handler or timer is installed.
  Otherwise the session starts with its handlers installed and the interval armed.
\<close>

definition exec :: "string list list \<Rightarrow> Compiler \<Rightarrow> effect list \<times> (error + session)" where
  "exec compilers this =
     ([Shell (''chmod -R 777 '' @ the_string (pathToFiles (opts this))
                @ '';chown -R cc-user:cc-user /usercode''),
       Spawn ''docker'' (docker_args this) ''xterm-256color'' 32 200],
      (case catalog_entry compilers (langNum (opts this)) of
         None \<Rightarrow> Inl TypeError
       | Some runner \<Rightarrow>
           Inr \<lparr> container = the_string (containerName (opts this)),
                 step1 = step1_of runner (the_string (mainFile (opts this))),
                 step2 = step2_of runner (the_string (mainFile (opts this))),
                 sentStep1 = False,
                 sentStep2 = (step2_of runner (the_string (mainFile (opts this))) = []),
                 receivedFinalArrow = False,
                 isLaunched = False,
                 sentDone = False,
                 timeouts = [],
                 checkInterval = True,
                 probes = 0 \<rparr>))"

section \<open>The callbacks\<close>

text \<open>The \<open>onData\<close> handler, lines 72-99.\<close>

definition onData :: "string \<Rightarrow> session \<Rightarrow> effect list \<times> session" where
  "onData e s =
     (if str_includes e arrow \<and> sentStep1 s \<and> sentStep2 s
      then ([Emit (Inc e), Shell (''docker rm -f '' @ container s)], s)
      else if \<not> sentStep1 s \<and> e = arrow
      then ([Emit (Inc e)], s\<lparr>timeouts := timeouts s @ [SendStep1]\<rparr>)
      else if \<not> sentStep2 s \<and> sentStep1 s \<and> str_includes e arrow
      then ([Emit (Inc e)], s\<lparr>timeouts := timeouts s @ [SendStep2]\<rparr>)
      else if (\<not> sentStep2 s \<and> sentStep1 s \<and> \<not> str_includes e arrow) \<or> receivedFinalArrow s
      then ([Emit (Inc e), Write del], s)
      else ([Emit (Inc e)], s))"

text \<open>The bodies of the three \<open>setTimeout\<close> callbacks (lines 80-84, 88-92, 135).\<close>

fun fire :: "timer \<Rightarrow> session \<Rightarrow> effect list \<times> session" where
  "fire SendStep1 s =
     (if sentStep1 s then ([], s) else ([Write (step1 s)], s\<lparr>sentStep1 := True\<rparr>))"
| "fire SendStep2 s =
     (if sentStep2 s then ([], s) else ([Write (step2 s)], s\<lparr>sentStep2 := True\<rparr>))"
| "fire RemoveContainer s = ([Shell (''docker rm -f '' @ container s)], s)"

text \<open>\<open>_cleanUp\<close>, lines 144-147.\<close>

definition cleanUp :: "session \<Rightarrow> effect list \<times> session" where
  "cleanUp s = ([ClearInterval, Kill ''1''], s\<lparr>checkInterval := False\<rparr>)"

text \<open>The callback of the \<open>docker ps\<close> probe, lines 106-120, on its output.\<close>

definition probe :: "string \<Rightarrow> session \<Rightarrow> effect list \<times> session" where
  "probe out s =
     (if out \<noteq> [] \<and> \<not> isLaunched s
      then ([Emit Launched], s\<lparr>isLaunched := True\<rparr>)
      else (let timedOut = str_includes out ''minute'' in
            if ((out = [] \<and> isLaunched s) \<or> timedOut) \<and> \<not> sentDone s
            then (let (effs, s') = cleanUp (s\<lparr>sentDone := True\<rparr>)
                  in (Emit (Done [] timedOut) # effs, s'))
            else ([], s)))"

text \<open>
  One reaction of the session. A timeout fires only if it is pending, and is then
  removed from the pending ones; the interval issues a probe only while it is armed; a
  probe's callback runs only for a probe that was issued.
\<close>

fun step :: "input \<Rightarrow> session \<Rightarrow> effect list \<times> session" where
  "step (Data e) s = onData e s"
| "step (TimeoutFires n) s =
     (if n < length (timeouts s)
      then fire (timeouts s ! n) (s\<lparr>timeouts := take n (timeouts s) @ drop (Suc n) (timeouts s)\<rparr>)
      else ([], s))"
| "step IntervalFires s =
     (if checkInterval s
      then ([Shell (''docker ps | grep '' @ container s)], s\<lparr>probes := Suc (probes s)\<rparr>)
      else ([], s))"
| "step (ProbeReturns out) s =
     (if probes s = 0 then ([], s) else probe out (s\<lparr>probes := probes s - 1\<rparr>))"
| "step (Push txt) s = ([Write txt], s)"
| "step Stop s = ([Kill ''1''], s\<lparr>timeouts := timeouts s @ [RemoveContainer]\<rparr>)"
| "step (Resize cols rows) s = ([ResizePty cols rows], s)"

text \<open>A session's history: the effects of the reactions, one after the other.\<close>

fun run :: "input list \<Rightarrow> session \<Rightarrow> effect list \<times> session" where
  "run [] s = ([], s)"
| "run (i # tr) s =
     (let (e1, s1) = step i s; (e2, s2) = run tr s1 in (e1 @ e2, s2))"

text \<open>The \<open>done\<close> events among some effects, and the \<open>launched\<close> ones.\<close>

fun is_done :: "effect \<Rightarrow> bool" where
  "is_done (Emit (Done out timedOut)) = True"
| "is_done e = False"

fun is_launched :: "effect \<Rightarrow> bool" where
  "is_launched (Emit Launched) = True"
| "is_launched e = False"

text \<open>The caller's own keystrokes, which \<open>push\<close> writes to the pty as they are.\<close>

fun is_push :: "input \<Rightarrow> bool" where
  "is_push (Push txt) = True"
| "is_push i = False"

text \<open>What the options' documentation asks of the required fields.\<close>

fun is_number :: "js_value \<Rightarrow> bool" where
  "is_number (JNumber n) = True"
| "is_number v = False"

fun is_nonempty_string :: "js_value \<Rightarrow> bool" where
  "is_nonempty_string (JString s) = (s \<noteq> [])"
| "is_nonempty_string v = False"

section \<open>A caller, and the scenario of the C compiler\<close>

text \<open>
  \<open>new Compiler(opts).exec()\<close>: the session that starts, if the constructor and
  \<open>exec\<close> both return.
\<close>

definition start :: "string list list \<Rightarrow> CompilerOptions \<Rightarrow> session option" where
  "start compilers os =
     (case constructor os of
        Inl msg \<Rightarrow> None
      | Inr this \<Rightarrow> (case snd (exec compilers this) of Inl err \<Rightarrow> None | Inr s \<Rightarrow> Some s))"

text \<open>
  The effects of \<open>new Compiler(opts).exec()\<close>: when the constructor throws,
  \<open>exec\<close> is not reached.
\<close>

definition launch :: "string list list \<Rightarrow> CompilerOptions \<Rightarrow> effect list" where
  "launch compilers os =
     (case constructor os of Inl msg \<Rightarrow> [] | Inr this \<Rightarrow> fst (exec compilers this))"

definition gcc_catalog :: "string list list" where
  "gcc_catalog = [[''gcc main.c -o main'', ''./{}'']]"

text \<open>Options for that catalog entry and the main file \<open>main.c\<close>, no folder name given.\<close>

definition gcc_options :: CompilerOptions where
  "gcc_options =
     \<lparr> langNum = JNumber (Finite 0), mainFile = JString ''main.c'',
       pathToFiles = JString ''/srv/u1'', containerName = JString ''box'',
       folderName = None \<rparr>"

text \<open>The instance the constructor returns for them (lemma \<open>constructor_gcc\<close>).\<close>

definition gcc_instance :: Compiler where
  "gcc_instance = \<lparr> opts = gcc_options, this_folderName = ''code'' \<rparr>"

text \<open>The session these options start (lemma \<open>start_gcc\<close>).\<close>

definition gcc_session :: session where
  "gcc_session =
     \<lparr> container = ''box'',
       step1 = ''gcc main.c -o main main.c'' @ [CHR 0x0D],
       step2 = ''./main'' @ [CHR 0x0D],
       sentStep1 = False, sentStep2 = False, receivedFinalArrow = False,
       isLaunched = False, sentDone = False, timeouts = [],
       checkInterval = True, probes = 0 \<rparr>"

section \<open>Histories\<close>

lemma run_Cons_fst: "fst (run (i # tr) s) = fst (step i s) @ fst (run tr (snd (step i s)))"
  by (simp split: prod.splits)

lemma run_Cons_snd: "snd (run (i # tr) s) = snd (run tr (snd (step i s)))"
  by (simp split: prod.splits)

lemma run_append_fst: "fst (run (xs @ ys) s) = fst (run xs s) @ fst (run ys (snd (run xs s)))"
  by (induction xs arbitrary: s) (simp_all add: run_Cons_fst run_Cons_snd del: run.simps(2))

lemma run_append_snd: "snd (run (xs @ ys) s) = snd (run ys (snd (run xs s)))"
  by (induction xs arbitrary: s) (simp_all add: run_Cons_snd del: run.simps(2))

lemma constructor_gcc: "constructor gcc_options = Inr gcc_instance"
  by (simp add: constructor_def gcc_options_def gcc_instance_def strict_neq_zero_def
      folder_or_code_def)

lemma exec_gcc: "snd (exec gcc_catalog gcc_instance) = Inr gcc_session"
  by (simp add: gcc_instance_def gcc_options_def gcc_catalog_def
      exec_def catalog_entry_def step1_of_def step2_of_def element_def interpolate_def
      fileWithoutExt_def str_replace_def gcc_session_def)

lemma start_gcc: "start gcc_catalog gcc_options = Some gcc_session"
  by (simp add: start_def constructor_def gcc_options_def gcc_catalog_def strict_neq_zero_def
      exec_def catalog_entry_def step1_of_def step2_of_def element_def interpolate_def
      fileWithoutExt_def str_replace_def gcc_session_def folder_or_code_def)

section \<open>Facts about single reactions\<close>

lemma exec_no_events:
  "filter is_done (fst (exec compilers this)) = []
   \<and> filter is_launched (fst (exec compilers this)) = []"
  by (simp add: exec_def)

lemma exec_flags:
  "snd (exec compilers this) = Inr s0 \<Longrightarrow>
     \<not> sentStep1 s0 \<and> \<not> receivedFinalArrow s0 \<and> \<not> isLaunched s0 \<and> \<not> sentDone s0
     \<and> timeouts s0 = [] \<and> checkInterval s0 \<and> probes s0 = 0"
  by (auto simp: exec_def split: option.splits)










lemma step_done_payload: "Emit (Done out timedOut) \<in> set (fst (step i s)) \<Longrightarrow> out = []"
  by (cases i; cases "timeouts s ! (case i of TimeoutFires n \<Rightarrow> n | _ \<Rightarrow> 0)")
     (auto simp: onData_def probe_def cleanUp_def Let_def split: if_splits)

lemma step_launched:
  "length (filter is_launched (fst (step i s))) + (if isLaunched s then 1 else 0)
     = (if isLaunched (snd (step i s)) then 1 else 0)"
  by (cases i; cases "timeouts s ! (case i of TimeoutFires n \<Rightarrow> n | _ \<Rightarrow> 0)")
     (auto simp: onData_def probe_def cleanUp_def Let_def split: if_splits)

lemma run_launched:
  "length (filter is_launched (fst (run tr s))) + (if isLaunched s then 1 else 0)
     = (if isLaunched (snd (run tr s)) then 1 else 0)"
proof (induction tr arbitrary: s)
  case Nil
  then show ?case by simp
next
  case (Cons i tr)
  from step_launched [of i s] Cons.IH [of "snd (step i s)"]
  show ?case
    by (simp add: run_Cons_fst run_Cons_snd del: run.simps split: if_splits)
qed

lemma step_launched_only_probe:
  "Emit Launched \<in> set (fst (step i s)) \<Longrightarrow>
     (case i of ProbeReturns out \<Rightarrow> out \<noteq> [] | _ \<Rightarrow> False)
     \<and> \<not> isLaunched s \<and> isLaunched (snd (step i s))"
  by (cases i; cases "timeouts s ! (case i of TimeoutFires n \<Rightarrow> n | _ \<Rightarrow> 0)")
     (auto simp: onData_def probe_def cleanUp_def Let_def split: if_splits)

section \<open>The constructor's checks\<close>

lemma typeof_number: "(typeof v = ''number'') = is_number v"
  by (cases v) auto

lemma string_check: "(\<not> truthy v \<or> typeof v \<noteq> ''string'') = (\<not> is_nonempty_string v)"
  by (cases v) auto

lemma number_check:
  "((\<not> truthy v \<and> strict_neq_zero v) \<or> typeof v \<noteq> ''number'')
     = (\<not> is_number v \<or> v = JNumber NaN)"
proof (cases v)
  case (JNumber n)
  then show ?thesis by (cases n) (auto simp: strict_neq_zero_def)
qed (auto simp: strict_neq_zero_def)

section \<open>Invariants of the step sequencer\<close>

lemma fire_flags:
  "(sentStep1 s \<longrightarrow> sentStep1 (snd (fire t s)))
   \<and> (sentStep2 s \<longrightarrow> sentStep2 (snd (fire t s)))
   \<and> receivedFinalArrow (snd (fire t s)) = receivedFinalArrow s
   \<and> timeouts (snd (fire t s)) = timeouts s
   \<and> step2 (snd (fire t s)) = step2 s"
  by (cases t) auto

lemma step_sent_mono:
  "(sentStep1 s \<longrightarrow> sentStep1 (snd (step i s)))
   \<and> (sentStep2 s \<longrightarrow> sentStep2 (snd (step i s)))
   \<and> receivedFinalArrow (snd (step i s)) = receivedFinalArrow s
   \<and> step2 (snd (step i s)) = step2 s"
proof (cases i)
  case (TimeoutFires n)
  then show ?thesis
    using fire_flags [of "s\<lparr>timeouts := take n (timeouts s) @ drop (Suc n) (timeouts s)\<rparr>"
        "timeouts s ! n"]
    by simp
qed (auto simp: onData_def probe_def cleanUp_def Let_def)

lemma run_sent_mono:
  "(sentStep1 s \<longrightarrow> sentStep1 (snd (run tr s)))
   \<and> (sentStep2 s \<longrightarrow> sentStep2 (snd (run tr s)))
   \<and> receivedFinalArrow (snd (run tr s)) = receivedFinalArrow s
   \<and> step2 (snd (run tr s)) = step2 s"
proof (induction tr arbitrary: s)
  case Nil
  then show ?case by simp
next
  case (Cons i tr)
  from step_sent_mono [of s i] Cons.IH [of "snd (step i s)"]
  show ?case by (simp add: run_Cons_snd del: run.simps)
qed

lemma set_remove_nth: "set (take n xs @ drop (Suc n) xs) \<subseteq> set xs"
  by (auto dest: in_set_takeD in_set_dropD)

lemma step_pending_step2:
  assumes "SendStep2 \<in> set (timeouts s) \<longrightarrow> sentStep1 s"
  shows "SendStep2 \<in> set (timeouts (snd (step i s))) \<longrightarrow> sentStep1 (snd (step i s))"
proof (cases i)
  case (Data e)
  with assms show ?thesis by (auto simp: onData_def)
next
  case (TimeoutFires n)
  let ?s' = "s\<lparr>timeouts := take n (timeouts s) @ drop (Suc n) (timeouts s)\<rparr>"
  from assms set_remove_nth [of n "timeouts s"]
  have "SendStep2 \<in> set (timeouts ?s') \<longrightarrow> sentStep1 ?s'" by auto
  with fire_flags [of ?s' "timeouts s ! n"] TimeoutFires assms
  show ?thesis by auto
next
  case (ProbeReturns out)
  with assms show ?thesis by (auto simp: probe_def cleanUp_def Let_def)
qed (use assms in auto)

lemma run_pending_step2:
  "(SendStep2 \<in> set (timeouts s) \<longrightarrow> sentStep1 s) \<Longrightarrow>
     SendStep2 \<in> set (timeouts (snd (run tr s))) \<longrightarrow> sentStep1 (snd (run tr s))"
proof (induction tr arbitrary: s)
  case Nil
  then show ?case by simp
next
  case (Cons i tr)
  from Cons.IH [OF step_pending_step2 [OF Cons.prems, of i]]
  show ?case by (simp add: run_Cons_snd del: run.simps)
qed

lemma step_sets_sentStep2:
  assumes "SendStep2 \<in> set (timeouts s) \<longrightarrow> sentStep1 s"
    and "\<not> sentStep2 s" and "sentStep2 (snd (step i s))"
  shows "sentStep1 s"
proof (cases i)
  case (TimeoutFires n)
  show ?thesis
  proof (cases "n < length (timeouts s)")
    case True
    then have m: "timeouts s ! n \<in> set (timeouts s)" by simp
    from assms TimeoutFires True m show ?thesis
      by (cases "timeouts s ! n") (auto split: if_splits)
  next
    case False
    with assms TimeoutFires show ?thesis by simp
  qed
qed (use assms in \<open>auto simp: onData_def probe_def cleanUp_def Let_def split: if_splits\<close>)

lemma step_write_after_step1:
  assumes "SendStep2 \<in> set (timeouts s) \<longrightarrow> sentStep1 s"
    and "\<not> receivedFinalArrow s" and "\<not> is_push i" and "Write w \<in> set (fst (step i s))"
  shows "sentStep1 (snd (step i s))"
proof (cases i)
  case (TimeoutFires n)
  show ?thesis
  proof (cases "n < length (timeouts s)")
    case True
    then have m: "timeouts s ! n \<in> set (timeouts s)" by simp
    from assms TimeoutFires True m show ?thesis
      by (cases "timeouts s ! n") (auto split: if_splits)
  next
    case False
    with assms TimeoutFires show ?thesis by simp
  qed
qed (use assms in \<open>auto simp: onData_def probe_def cleanUp_def Let_def split: if_splits\<close>)

lemma step2_of_empty:
  "(step2_of runner m = []) = (case element runner 1 of None \<Rightarrow> True | Some t \<Rightarrow> t = [])"
  by (simp add: step2_of_def split: option.splits)

section \<open>C1: the mount target and the working directory\<close>

text \<open>
  C1. The claim says that without a folder name the host path is mounted at
  \<open>/usercode/code\<close>, which is also the working directory. The constructor does
  compute \<open>this.folderName\<close> with that default, but \<open>exec\<close> reads
  \<open>this.opts.folderName\<close>: for every instance the constructor returns, the mount
  target and the working directory are \<open>/usercode/\<close> followed by the folder name as
  the caller gave it, and by the text \<open>undefined\<close> when the caller gave none.
\<close>

theorem exec_mount_target:
  assumes "constructor os = Inr this"
  shows "this_folderName this
        = (case folderName os of None \<Rightarrow> ''code'' | Some f \<Rightarrow> if f = [] then ''code'' else f)
     \<and> fst (exec compilers this)
        = [Shell (''chmod -R 777 '' @ the_string (pathToFiles os)
                   @ '';chown -R cc-user:cc-user /usercode''),
           Spawn ''docker''
             [''run'', ''--rm'', ''--name'', the_string (containerName os),
              ''-e'', ''TERM=xterm-256color'', ''--cpus=0.25'', ''--memory=200m'', ''-itv'',
              the_string (pathToFiles os) @ '':/usercode/''
                @ (case folderName os of None \<Rightarrow> ''undefined'' | Some f \<Rightarrow> f),
              ''--workdir'',
              ''/usercode/'' @ (case folderName os of None \<Rightarrow> ''undefined'' | Some f \<Rightarrow> f),
              ''cc-compiler'', ''/bin/bash'']
             ''xterm-256color'' 32 200]"
proof -
  from assms have "this = \<lparr> opts = os, this_folderName = folder_or_code (folderName os) \<rparr>"
    by (auto simp: constructor_def split: if_splits)
  then show ?thesis
    by (simp add: exec_def docker_args_def interpolate_def folder_or_code_def)
qed

text \<open>
  C1 at options without a folder name: \<open>this.folderName\<close> is \<open>code\<close>, the
  environment is launched on \<open>/usercode/undefined\<close>.
\<close>

theorem exec_mount_target_witness:
  "constructor gcc_options = Inr gcc_instance
   \<and> folderName gcc_options = None
   \<and> this_folderName gcc_instance = ''code''
   \<and> fst (exec gcc_catalog gcc_instance)
        = [Shell ''chmod -R 777 /srv/u1;chown -R cc-user:cc-user /usercode'',
           Spawn ''docker''
             [''run'', ''--rm'', ''--name'', ''box'',
              ''-e'', ''TERM=xterm-256color'', ''--cpus=0.25'', ''--memory=200m'', ''-itv'',
              ''/srv/u1:/usercode/undefined'', ''--workdir'', ''/usercode/undefined'',
              ''cc-compiler'', ''/bin/bash'']
             ''xterm-256color'' 32 200]"
proof -
  have f: "folderName gcc_options = None"
    by (simp add: gcc_options_def)
  have p: "the_string (pathToFiles gcc_options) = ''/srv/u1''"
    "the_string (containerName gcc_options) = ''box''"
    by (simp_all add: gcc_options_def)
  from exec_mount_target [OF constructor_gcc, of gcc_catalog]
  have "this_folderName gcc_instance = ''code''
     \<and> fst (exec gcc_catalog gcc_instance)
        = [Shell ''chmod -R 777 /srv/u1;chown -R cc-user:cc-user /usercode'',
           Spawn ''docker''
             [''run'', ''--rm'', ''--name'', ''box'',
              ''-e'', ''TERM=xterm-256color'', ''--cpus=0.25'', ''--memory=200m'', ''-itv'',
              ''/srv/u1:/usercode/undefined'', ''--workdir'', ''/usercode/undefined'',
              ''cc-compiler'', ''/bin/bash'']
             ''xterm-256color'' 32 200]"
    by (simp add: f p)
  with constructor_gcc f show ?thesis by blast
qed

section \<open>C2: the scenario of the C compiler\<close>

text \<open>
  C2, counterexample. For the catalog entry \<open>["gcc main.c -o main", "./{}"]\<close> and
  the main file \<open>main.c\<close> the claim has \<open>gcc main.c -o main\<close> and a carriage
  return written on the first prompt. The code appends the main file's name to the
  catalog's first command: what is written, once the timeout scheduled by the first prompt
  fires, is \<open>gcc main.c -o main main.c\<close> and a carriage return.
\<close>

theorem gcc_first_write_counterexample:
  "start gcc_catalog gcc_options = Some gcc_session
   \<and> fst (run [Data arrow, TimeoutFires 0] gcc_session)
       = [Emit (Inc arrow), Write (''gcc main.c -o main main.c'' @ [CHR 0x0D])]
   \<and> ''gcc main.c -o main main.c'' @ [CHR 0x0D] \<noteq> ''gcc main.c -o main'' @ [CHR 0x0D]"
  by (simp add: start_gcc) (simp add: gcc_session_def onData_def arrow_def)

text \<open>
  C2, as amended. For that catalog entry and main file, the first prompt alone writes
  nothing; when its timeout has fired \<open>gcc main.c -o main main.c\<close> and a carriage
  return have been written (the catalog's command, a space, the main file's name); the
  second prompt and its timeout write \<open>./main\<close> and a carriage return, the template
  with \<open>{}\<close> replaced by the main file's name without its extension.
\<close>

theorem gcc_scenario:
  "map_option (\<lambda>s. fst (run [Data arrow] s)) (start gcc_catalog gcc_options)
     = Some [Emit (Inc arrow)]
   \<and> map_option (\<lambda>s. fst (run [Data arrow, TimeoutFires 0, Data arrow, TimeoutFires 0] s))
       (start gcc_catalog gcc_options)
     = Some [Emit (Inc arrow), Write (''gcc main.c -o main main.c'' @ [CHR 0x0D]),
             Emit (Inc arrow), Write (''./main'' @ [CHR 0x0D])]
   \<and> fileWithoutExt ''main.c'' = ''main''"
  by (simp add: start_gcc) (simp add: gcc_session_def onData_def arrow_def fileWithoutExt_def)

section \<open>C3: the flag for the final prompt\<close>

text \<open>
  C3. The claim says that once a prompt has arrived with both steps sent, a flag is
  set and every later chunk has one DEL written to the pty. The code declares
  \<open>receivedFinalArrow\<close> and reads it, and never assigns it: in every session it is
  unset at every moment, and once both steps are sent every chunk is forwarded as an
  \<open>inc\<close> event and nothing is written to the pty: a chunk with the prompt marker
  has the environment removed (again), a chunk without it has no further effect.
\<close>

theorem final_arrow_never_recorded:
  assumes "snd (exec compilers this) = Inr s0"
  shows "\<not> receivedFinalArrow (snd (run tr s0))
     \<and> (sentStep1 (snd (run tr s0)) \<and> sentStep2 (snd (run tr s0)) \<longrightarrow>
          step (Data e) (snd (run tr s0))
            = (if str_includes e arrow
               then [Emit (Inc e), Shell (''docker rm -f '' @ container (snd (run tr s0)))]
               else [Emit (Inc e)],
               snd (run tr s0)))"
proof -
  from assms have "\<not> receivedFinalArrow s0" using exec_flags by blast
  then have "\<not> receivedFinalArrow (snd (run tr s0))"
    using run_sent_mono [of s0 tr] by simp
  then show ?thesis by (simp add: onData_def)
qed

text \<open>
  C3 at the session of the C compiler: both steps sent, the prompt back (the
  environment is removed), then the chunk \<open>x\<close>: the flag is unset and no DEL is
  written.
\<close>

theorem final_arrow_never_recorded_witness:
  "snd (exec gcc_catalog gcc_instance) = Inr gcc_session
   \<and> fst (step (Data arrow) (snd (run [Data arrow, TimeoutFires 0, Data arrow, TimeoutFires 0] gcc_session)))
       = [Emit (Inc arrow), Shell ''docker rm -f box'']
   \<and> \<not> receivedFinalArrow
        (snd (run [Data arrow, TimeoutFires 0, Data arrow, TimeoutFires 0, Data arrow] gcc_session))
   \<and> fst (step (Data ''x'')
        (snd (run [Data arrow, TimeoutFires 0, Data arrow, TimeoutFires 0, Data arrow] gcc_session)))
       = [Emit (Inc ''x'')]"
proof -
  let ?tr2 = "[Data arrow, TimeoutFires 0, Data arrow, TimeoutFires 0]"
  let ?tr = "[Data arrow, TimeoutFires 0, Data arrow, TimeoutFires 0, Data arrow]"
  have s2: "snd (run ?tr2 gcc_session) = gcc_session\<lparr>sentStep1 := True, sentStep2 := True\<rparr>"
    by (simp add: gcc_session_def onData_def arrow_def)
  have s: "snd (run ?tr gcc_session) = gcc_session\<lparr>sentStep1 := True, sentStep2 := True\<rparr>"
    by (simp add: gcc_session_def onData_def arrow_def)
  have r1: "fst (step (Data arrow) (snd (run ?tr2 gcc_session)))
      = [Emit (Inc arrow), Shell ''docker rm -f box'']"
    unfolding s2 by (simp add: gcc_session_def onData_def arrow_def)
  have h: "sentStep1 (snd (run ?tr gcc_session)) \<and> sentStep2 (snd (run ?tr gcc_session))
      \<and> \<not> str_includes ''x'' arrow"
    unfolding s by (simp add: arrow_def)
  from final_arrow_never_recorded [OF exec_gcc, of ?tr "''x''"] h r1 exec_gcc
  show ?thesis by simp
qed

section \<open>C4: how often \<open>done\<close> is emitted\<close>




section \<open>C5: the order of the two steps\<close>

text \<open>
  C5. In every session and at every moment of it: \<open>sentStep1\<close> and
  \<open>sentStep2\<close>, once set, stay set whatever follows; a reaction that sets
  \<open>sentStep2\<close> finds \<open>sentStep1\<close> already set; \<open>sentStep2\<close> is set from
  the start exactly when the catalog entry has no second command (none, or the empty
  string); and any reaction other than the caller's own \<open>push\<close> that writes the
  text of step 2 to the pty leaves \<open>sentStep1\<close> set, so step 2 is not written before
  step 1 is recorded as sent.
\<close>

theorem steps_in_order:
  assumes "snd (exec compilers this) = Inr s0"
  shows "(sentStep1 (snd (run tr s0)) \<longrightarrow> sentStep1 (snd (run (tr @ js) s0)))
     \<and> (sentStep2 (snd (run tr s0)) \<longrightarrow> sentStep2 (snd (run (tr @ js) s0)))
     \<and> (\<not> sentStep2 (snd (run tr s0)) \<and> sentStep2 (snd (run (tr @ [i]) s0))
          \<longrightarrow> sentStep1 (snd (run tr s0)))
     \<and> (catalog_entry compilers (langNum (opts this)) = Some runner \<longrightarrow>
          sentStep2 s0 = (case element runner 1 of None \<Rightarrow> True | Some t \<Rightarrow> t = []))
     \<and> (\<not> is_push i \<and> Write (step2 s0) \<in> set (fst (step i (snd (run tr s0))))
          \<longrightarrow> sentStep1 (snd (step i (snd (run tr s0)))))"
proof -
  let ?s = "snd (run tr s0)"
  from assms have init: "timeouts s0 = []" "\<not> receivedFinalArrow s0"
    using exec_flags by blast+
  then have inv: "SendStep2 \<in> set (timeouts ?s) \<longrightarrow> sentStep1 ?s"
    using run_pending_step2 [of s0 tr] by simp
  from init have rfa: "\<not> receivedFinalArrow ?s"
    using run_sent_mono [of s0 tr] by simp
  have 1: "sentStep1 ?s \<longrightarrow> sentStep1 (snd (run (tr @ js) s0))"
    and 2: "sentStep2 ?s \<longrightarrow> sentStep2 (snd (run (tr @ js) s0))"
    using run_sent_mono [of ?s js] by (simp_all add: run_append_snd)
  have 3: "\<not> sentStep2 ?s \<and> sentStep2 (snd (run (tr @ [i]) s0)) \<longrightarrow> sentStep1 ?s"
    using step_sets_sentStep2 [OF inv, of i] by (auto simp: run_append_snd)
  have 4: "catalog_entry compilers (langNum (opts this)) = Some runner \<longrightarrow>
          sentStep2 s0 = (case element runner 1 of None \<Rightarrow> True | Some t \<Rightarrow> t = [])"
    using assms step2_of_empty [of runner "the_string (mainFile (opts this))"]
    by (auto simp: exec_def)
  have 5: "\<not> is_push i \<and> Write (step2 s0) \<in> set (fst (step i ?s)) \<longrightarrow> sentStep1 (snd (step i ?s))"
    using step_write_after_step1 [OF inv rfa, of i "step2 s0"] by blast
  from 1 2 3 4 5 show ?thesis by blast
qed

text \<open>
  C5 at the session of the C compiler, around the timeout that sends step 2.
\<close>

theorem steps_in_order_witness:
  "snd (exec gcc_catalog gcc_instance) = Inr gcc_session
   \<and> sentStep1 (snd (run [Data arrow, TimeoutFires 0, Data arrow] gcc_session))
   \<and> sentStep1 (snd (run ([Data arrow, TimeoutFires 0, Data arrow] @ [TimeoutFires 0]) gcc_session))
   \<and> \<not> sentStep2 (snd (run [Data arrow, TimeoutFires 0, Data arrow] gcc_session))
   \<and> sentStep2 (snd (run ([Data arrow, TimeoutFires 0, Data arrow] @ [TimeoutFires 0]) gcc_session))
   \<and> sentStep2 (snd (run ([Data arrow, TimeoutFires 0, Data arrow, TimeoutFires 0] @ [Data ''a.out'']) gcc_session))
   \<and> catalog_entry gcc_catalog (langNum (opts gcc_instance)) = Some [''gcc main.c -o main'', ''./{}'']
   \<and> \<not> sentStep2 gcc_session
   \<and> \<not> is_push (TimeoutFires 0)
   \<and> Write (step2 gcc_session)
        \<in> set (fst (step (TimeoutFires 0) (snd (run [Data arrow, TimeoutFires 0, Data arrow] gcc_session))))
   \<and> sentStep1 (snd (step (TimeoutFires 0) (snd (run [Data arrow, TimeoutFires 0, Data arrow] gcc_session))))"
proof -
  let ?tr = "[Data arrow, TimeoutFires 0, Data arrow]"
  let ?tr2 = "[Data arrow, TimeoutFires 0, Data arrow, TimeoutFires 0]"
  have s: "snd (run ?tr gcc_session) = gcc_session\<lparr>sentStep1 := True, timeouts := [SendStep2]\<rparr>"
    by (simp add: gcc_session_def onData_def arrow_def)
  have s2: "snd (run ?tr2 gcc_session) = gcc_session\<lparr>sentStep1 := True, sentStep2 := True\<rparr>"
    by (simp add: gcc_session_def onData_def arrow_def)
  have a: "sentStep1 (snd (run ?tr gcc_session))" "\<not> sentStep2 (snd (run ?tr gcc_session))"
    unfolding s by (simp_all add: gcc_session_def)
  have b: "sentStep2 (snd (run (?tr @ [TimeoutFires 0]) gcc_session))"
    using s2 by (simp add: gcc_session_def)
  have b2: "sentStep2 (snd (run ?tr2 gcc_session))"
    unfolding s2 by simp
  have c: "catalog_entry gcc_catalog (langNum (opts gcc_instance))
      = Some [''gcc main.c -o main'', ''./{}'']"
    by (simp add: catalog_entry_def gcc_catalog_def gcc_instance_def gcc_options_def)
  have w: "Write (step2 gcc_session) \<in> set (fst (step (TimeoutFires 0) (snd (run ?tr gcc_session))))"
    unfolding s by (simp add: gcc_session_def)
  have np: "\<not> is_push (TimeoutFires 0)" by simp
  note t1 = steps_in_order [OF exec_gcc, where tr = ?tr and js = "[TimeoutFires 0]"
      and i = "TimeoutFires 0" and runner = "[''gcc main.c -o main'', ''./{}'']"]
  note t2 = steps_in_order [OF exec_gcc, where tr = ?tr2 and js = "[Data ''a.out'']"]
  from t1 a have c1: "sentStep1 (snd (run (?tr @ [TimeoutFires 0]) gcc_session))"
    by blast
  from t2 b2 have c2: "sentStep2 (snd (run (?tr2 @ [Data ''a.out'']) gcc_session))"
    by blast
  from t1 c have "sentStep2 gcc_session
      = (case element [''gcc main.c -o main'', ''./{}''] 1 of None \<Rightarrow> True | Some t \<Rightarrow> t = [])"
    by blast
  then have c4: "\<not> sentStep2 gcc_session" by (simp add: element_def)
  from t1 np w
  have c5: "sentStep1 (snd (step (TimeoutFires 0) (snd (run ?tr gcc_session))))"
    by blast
  from exec_gcc a b c c1 c2 c4 np w c5 show ?thesis by blast
qed

section \<open>C6: chunks between the two steps\<close>

text \<open>
  C6, counterexample. The claim is about every chunk, between the two steps, that is
  not itself the prompt marker. A chunk that holds the marker after other text is not the
  marker itself; it has no DEL written: it schedules step 2.
\<close>

theorem chunk_with_marker_counterexample:
  "sentStep1 (snd (run [Data arrow, TimeoutFires 0] gcc_session))
   \<and> \<not> sentStep2 (snd (run [Data arrow, TimeoutFires 0] gcc_session))
   \<and> ''$ '' @ arrow \<noteq> arrow
   \<and> step (Data (''$ '' @ arrow)) (snd (run [Data arrow, TimeoutFires 0] gcc_session))
      = ([Emit (Inc (''$ '' @ arrow))],
         gcc_session\<lparr>sentStep1 := True, timeouts := [SendStep2]\<rparr>)"
  by (simp add: gcc_session_def onData_def arrow_def)

text \<open>
  C6, as amended. With step 1 recorded as sent and step 2 not yet, every chunk that
  does not contain the prompt marker is forwarded as an \<open>inc\<close> event and has a
  single DEL written to the pty, and nothing else happens; a chunk that contains the
  marker, alone or after other text, is forwarded and schedules step 2, and writes
  nothing.
\<close>

theorem chunk_between_steps:
  assumes "sentStep1 s" and "\<not> sentStep2 s"
  shows "(\<not> str_includes e arrow \<longrightarrow> step (Data e) s = ([Emit (Inc e), Write del], s))
     \<and> (str_includes e arrow \<longrightarrow>
          step (Data e) s = ([Emit (Inc e)], s\<lparr>timeouts := timeouts s @ [SendStep2]\<rparr>))"
  using assms by (auto simp: onData_def)

text \<open>
  The amended C6 at the session of the C compiler after step 1, on the chunk
  \<open>ls\<close>.
\<close>

theorem chunk_between_steps_witness:
  "sentStep1 (snd (run [Data arrow, TimeoutFires 0] gcc_session))
   \<and> \<not> sentStep2 (snd (run [Data arrow, TimeoutFires 0] gcc_session))
   \<and> \<not> str_includes ''ls'' arrow
   \<and> step (Data ''ls'') (snd (run [Data arrow, TimeoutFires 0] gcc_session))
      = ([Emit (Inc ''ls''), Write [CHR 0x7F]], gcc_session\<lparr>sentStep1 := True\<rparr>)"
proof -
  let ?s = "snd (run [Data arrow, TimeoutFires 0] gcc_session)"
  have s: "?s = gcc_session\<lparr>sentStep1 := True\<rparr>"
    by (simp add: gcc_session_def onData_def arrow_def)
  have a: "sentStep1 ?s" and b: "\<not> sentStep2 ?s"
    unfolding s by (simp_all add: gcc_session_def)
  have c: "\<not> str_includes ''ls'' arrow" by (simp add: arrow_def)
  from chunk_between_steps [OF a b, of "''ls''"] c
  have "step (Data ''ls'') ?s = ([Emit (Inc ''ls''), Write del], ?s)" by blast
  with a b c show ?thesis unfolding s by (simp add: del_def)
qed

section \<open>C7: what a probe does\<close>

text \<open>
  C7, counterexample. The claim has \<open>done\<close> fire, with \<open>timedOut: true\<close>,
  on a probe whose output contains \<open>minute\<close>. The first probe with a non-empty output
  only emits \<open>launched\<close>, whatever the output holds: here the line of an older
  environment \<open>box2\<close>, which \<open>grep box\<close> lets through.
\<close>

theorem probe_minute_counterexample:
  "str_includes ''box2   Up About a minute'' ''minute''
   \<and> step (ProbeReturns ''box2   Up About a minute'') (snd (run [IntervalFires] gcc_session))
      = ([Emit Launched], gcc_session\<lparr>isLaunched := True\<rparr>)"
  by (simp add: gcc_session_def probe_def)

text \<open>
  C7, as amended. The callback of a probe that was issued does this: on a non-empty
  output with \<open>isLaunched\<close> unset it sets \<open>isLaunched\<close> and emits
  \<open>launched\<close>, nothing more; with \<open>isLaunched\<close> set and \<open>sentDone\<close>
  unset, on an empty output it emits \<open>done\<close> with \<open>timedOut: false\<close> and on an
  output that contains \<open>minute\<close> it emits \<open>done\<close> with \<open>timedOut: true\<close>,
  in both cases it cancels the polling timer and signals the pty, and from then on the
  interval issues no probe.
\<close>

theorem probe_classified:
  assumes "0 < probes s"
  shows "(out \<noteq> [] \<and> \<not> isLaunched s \<longrightarrow>
            step (ProbeReturns out) s
              = ([Emit Launched], s\<lparr>probes := probes s - 1, isLaunched := True\<rparr>))
     \<and> (isLaunched s \<and> \<not> sentDone s \<and> (out = [] \<or> str_includes out ''minute'') \<longrightarrow>
            step (ProbeReturns out) s
              = ([Emit (Done [] (str_includes out ''minute'')), ClearInterval, Kill ''1''],
                 s\<lparr>probes := probes s - 1, sentDone := True, checkInterval := False\<rparr>)
            \<and> step IntervalFires (snd (step (ProbeReturns out) s))
              = ([], snd (step (ProbeReturns out) s)))
     \<and> \<not> str_includes [] ''minute''"
  using assms by (auto simp: probe_def cleanUp_def Let_def)

text \<open>
  The amended C7 at a session whose environment has been seen once, on an empty
  output and on one with \<open>minute\<close>.
\<close>

theorem probe_classified_witness:
  "0 < probes (snd (run [IntervalFires, ProbeReturns ''box'', IntervalFires] gcc_session))
   \<and> step (ProbeReturns []) (snd (run [IntervalFires, ProbeReturns ''box'', IntervalFires] gcc_session))
      = ([Emit (Done [] False), ClearInterval, Kill ''1''],
         gcc_session\<lparr>isLaunched := True, sentDone := True, checkInterval := False\<rparr>)
   \<and> step (ProbeReturns ''box   Up About a minute'')
        (snd (run [IntervalFires, ProbeReturns ''box'', IntervalFires] gcc_session))
      = ([Emit (Done [] True), ClearInterval, Kill ''1''],
         gcc_session\<lparr>isLaunched := True, sentDone := True, checkInterval := False\<rparr>)
   \<and> step IntervalFires (gcc_session\<lparr>isLaunched := True, sentDone := True, checkInterval := False\<rparr>)
      = ([], gcc_session\<lparr>isLaunched := True, sentDone := True, checkInterval := False\<rparr>)"
proof -
  let ?s = "snd (run [IntervalFires, ProbeReturns ''box'', IntervalFires] gcc_session)"
  have s: "?s = gcc_session\<lparr>isLaunched := True, probes := 1\<rparr>"
    by (simp add: gcc_session_def probe_def)
  have p: "0 < probes ?s" "isLaunched ?s" "\<not> sentDone ?s"
    unfolding s by (simp_all add: gcc_session_def)
  have m: "str_includes ''box   Up About a minute'' ''minute''" by simp
  from probe_classified [OF p(1), of "[]"] probe_classified [OF p(1), of "''box   Up About a minute''"] p m
  show ?thesis
    unfolding s by (simp add: gcc_session_def)
qed

section \<open>C8: \<open>launched\<close>\<close>

text \<open>
  C8. In every session \<open>launched\<close> is emitted at most once. A reaction emits it only
  if it is the callback of a probe whose output is not empty, and only with
  \<open>isLaunched\<close> unset, which it sets; once \<open>isLaunched\<close> is set it stays set and no
  \<open>launched\<close> is emitted any more.
\<close>

theorem launched_at_most_once:
  assumes "snd (exec compilers this) = Inr s0"
  shows "length (filter is_launched (fst (exec compilers this) @ fst (run tr s0))) \<le> 1
     \<and> (Emit Launched \<in> set (fst (step i s)) \<longrightarrow>
          (case i of ProbeReturns out \<Rightarrow> out \<noteq> [] | _ \<Rightarrow> False)
          \<and> \<not> isLaunched s \<and> isLaunched (snd (step i s)))
     \<and> (isLaunched s \<longrightarrow>
          filter is_launched (fst (run js s)) = [] \<and> isLaunched (snd (run js s)))"
proof -
  from assms have "\<not> isLaunched s0" using exec_flags by blast
  then have 1: "length (filter is_launched (fst (exec compilers this) @ fst (run tr s0))) \<le> 1"
    using run_launched [of tr s0] exec_no_events [of compilers this]
    by (simp split: if_splits)
  have 3: "isLaunched s \<longrightarrow>
      filter is_launched (fst (run js s)) = [] \<and> isLaunched (snd (run js s))"
    using run_launched [of js s] by (simp split: if_splits)
  from 1 3 step_launched_only_probe [of i s] show ?thesis by blast
qed

text \<open>C8 at a session whose environment is seen by two probes in a row.\<close>

theorem launched_at_most_once_witness:
  "snd (exec gcc_catalog gcc_instance) = Inr gcc_session
   \<and> length (filter is_launched (fst (exec gcc_catalog gcc_instance)
        @ fst (run [IntervalFires, ProbeReturns ''box'', IntervalFires, ProbeReturns ''box'']
                gcc_session))) \<le> 1
   \<and> Emit Launched \<in> set (fst (step (ProbeReturns ''box'') (snd (run [IntervalFires] gcc_session))))
   \<and> \<not> isLaunched (snd (run [IntervalFires] gcc_session))
   \<and> isLaunched (snd (run [IntervalFires, ProbeReturns ''box''] gcc_session))
   \<and> filter is_launched (fst (run [IntervalFires, ProbeReturns ''box'']
        (snd (run [IntervalFires, ProbeReturns ''box''] gcc_session)))) = []"
proof -
  let ?s1 = "snd (run [IntervalFires] gcc_session)"
  let ?s2 = "snd (run [IntervalFires, ProbeReturns ''box''] gcc_session)"
  have e: "Emit Launched \<in> set (fst (step (ProbeReturns ''box'') ?s1))"
    by (simp add: gcc_session_def probe_def)
  have l: "isLaunched ?s2"
    by (simp add: gcc_session_def probe_def)
  from launched_at_most_once [OF exec_gcc,
      where tr = "[IntervalFires, ProbeReturns ''box'', IntervalFires, ProbeReturns ''box'']"
        and i = "ProbeReturns ''box''" and s = ?s1]
    launched_at_most_once [OF exec_gcc, where s = ?s2
        and js = "[IntervalFires, ProbeReturns ''box'']"]
    e l exec_gcc
  show ?thesis by blast
qed

section \<open>C9: the constructor's validation\<close>

text \<open>
  C9. If \<open>langNum\<close> is not a number, or \<open>mainFile\<close>, \<open>pathToFiles\<close> or
  \<open>containerName\<close> is not a non-empty string (a missing field is \<open>undefined\<close>),
  the constructor throws; whatever it throws is the message that names one of the four
  fields, and that field is an offending one (for \<open>langNum\<close>: not a number, or
  NaN); with \<open>langNum\<close> equal to 0 and the three strings non-empty it returns the
  instance. The constructor only checks and assigns: it has no effect on the outside, and
  a caller's
  \<open>new Compiler(opts).exec()\<close> then has no effect at all: no process is started.
\<close>

theorem constructor_validation:
  "(\<not> is_number (langNum os) \<or> \<not> is_nonempty_string (mainFile os)
      \<or> \<not> is_nonempty_string (pathToFiles os) \<or> \<not> is_nonempty_string (containerName os)
     \<longrightarrow> (case constructor os of Inl msg \<Rightarrow> True | Inr this \<Rightarrow> False)
         \<and> launch compilers os = [])
   \<and> (constructor os = Inl msg \<longrightarrow>
        (msg = ''Required param 'langNum' missing or invalid.''
           \<and> (\<not> is_number (langNum os) \<or> langNum os = JNumber NaN))
        \<or> (msg = ''Required param 'mainFile' missing or invalid.''
           \<and> \<not> is_nonempty_string (mainFile os))
        \<or> (msg = ''Required param 'pathToFiles' missing or invalid.''
           \<and> \<not> is_nonempty_string (pathToFiles os))
        \<or> (msg = ''Required param 'containerName' missing or invalid.''
           \<and> \<not> is_nonempty_string (containerName os)))
   \<and> (langNum os = JNumber (Finite 0) \<and> is_nonempty_string (mainFile os)
        \<and> is_nonempty_string (pathToFiles os) \<and> is_nonempty_string (containerName os)
     \<longrightarrow> constructor os = Inr \<lparr> opts = os, this_folderName = folder_or_code (folderName os) \<rparr>)"
  unfolding launch_def constructor_def number_check string_check
  by auto

text \<open>
  C9 at the options of the C compiler, with the main file left out and as they
  are.
\<close>

theorem constructor_validation_witness:
  "\<not> is_nonempty_string (mainFile (gcc_options\<lparr>mainFile := JUndefined\<rparr>))
   \<and> launch gcc_catalog (gcc_options\<lparr>mainFile := JUndefined\<rparr>) = []
   \<and> constructor (gcc_options\<lparr>mainFile := JUndefined\<rparr>)
       = Inl ''Required param 'mainFile' missing or invalid.''
   \<and> langNum gcc_options = JNumber (Finite 0)
   \<and> constructor gcc_options = Inr \<lparr> opts = gcc_options, this_folderName = ''code'' \<rparr>"
proof -
  let ?bad = "gcc_options\<lparr>mainFile := JUndefined\<rparr>"
  have b: "\<not> is_nonempty_string (mainFile ?bad)" by simp
  have n: "is_number (langNum ?bad) \<and> langNum ?bad \<noteq> JNumber NaN"
    by (simp add: gcc_options_def)
  have "(case constructor ?bad of Inl msg \<Rightarrow> True | Inr this \<Rightarrow> False)
      \<and> launch gcc_catalog ?bad = []"
    using constructor_validation [of ?bad gcc_catalog] b by blast
  then have l: "launch gcc_catalog ?bad = []"
    and "case constructor ?bad of Inl msg \<Rightarrow> True | Inr this \<Rightarrow> False"
    by blast+
  then obtain msg where m: "constructor ?bad = Inl msg"
    by (cases "constructor ?bad") auto
  have r: "is_nonempty_string (pathToFiles ?bad) \<and> is_nonempty_string (containerName ?bad)"
    by (simp add: gcc_options_def)
  from constructor_validation [of ?bad gcc_catalog msg] m n r b
  have "msg = ''Required param 'mainFile' missing or invalid.''"
    by blast
  with m have 1: "constructor ?bad = Inl ''Required param 'mainFile' missing or invalid.''"
    by simp
  have g: "langNum gcc_options = JNumber (Finite 0) \<and> is_nonempty_string (mainFile gcc_options)
        \<and> is_nonempty_string (pathToFiles gcc_options) \<and> is_nonempty_string (containerName gcc_options)
        \<and> folder_or_code (folderName gcc_options) = ''code''"
    by (simp add: gcc_options_def folder_or_code_def)
  with constructor_validation [of gcc_options]
  have 2: "constructor gcc_options = Inr \<lparr> opts = gcc_options, this_folderName = ''code'' \<rparr>"
    by simp
  from b l 1 2 g show ?thesis by blast
qed

section \<open>C10: the payload of \<open>done\<close>\<close>

text \<open>
  C10. Whatever state a session is in and whatever reaches it, every \<open>done\<close> event it
  emits carries the empty string as \<open>out\<close>; \<open>exec\<close> itself emits none. So the
  payloads of two \<open>done\<close> events differ at most in \<open>timedOut\<close>.
\<close>

theorem done_payload_empty:
  "(Emit (Done out timedOut) \<in> set (fst (run tr s)) \<longrightarrow> out = [])
   \<and> Emit (Done out timedOut) \<notin> set (fst (exec compilers this))"
proof
  show "Emit (Done out timedOut) \<in> set (fst (run tr s)) \<longrightarrow> out = []"
  proof (induction tr arbitrary: s)
    case Nil
    then show ?case by simp
  next
    case (Cons i tr)
    then show ?case
      using step_done_payload [of out timedOut i s]
      by (auto simp add: run_Cons_fst simp del: run.simps)
  qed
  show "Emit (Done out timedOut) \<notin> set (fst (exec compilers this))"
    by (simp add: exec_def)
qed

text \<open>
  C10 at a session that ends on the runtime ceiling: the \<open>done\<close> event is there with
  the empty string, and not with another one.
\<close>

theorem done_payload_empty_witness:
  "Emit (Done [] True) \<in> set (fst (run [IntervalFires, ProbeReturns ''box'', IntervalFires,
       ProbeReturns ''box   Up About a minute''] gcc_session))
   \<and> Emit (Done ''x'' True) \<notin> set (fst (run [IntervalFires, ProbeReturns ''box'',
       IntervalFires, ProbeReturns ''box   Up About a minute''] gcc_session))"
proof -
  let ?tr = "[IntervalFires, ProbeReturns ''box'', IntervalFires,
              ProbeReturns ''box   Up About a minute'']"
  have a: "Emit (Done [] True) \<in> set (fst (run ?tr gcc_session))"
    by (simp add: gcc_session_def probe_def cleanUp_def)
  from done_payload_empty [of "''x''" True ?tr gcc_session]
  have "Emit (Done ''x'' True) \<notin> set (fst (run ?tr gcc_session))" by auto
  with a show ?thesis by blast
qed

end
